theory Spec2Isabelle
  imports Main "HOL-Library.Word" "HOL-Library.AList"
begin

section \<open>JavaScript strings\<close>

text \<open>
  The scripts are JavaScript: a string is a sequence of UTF-16 code units, and
  \<^verbatim>\<open>length\<close>, \<^verbatim>\<open>slice\<close> and the regular expressions (none carries the
  \<^verbatim>\<open>u\<close> flag) count and match code units. A code unit is a 16-bit word.
\<close>

type_synonym jschar = "16 word"
type_synonym jsstring = "jschar list"

text \<open>An ASCII literal of the source, as code units.\<close>

definition js :: "string \<Rightarrow> jsstring" where
  "js s = map of_char s"

abbreviation LF :: jschar where "LF \<equiv> 0x0A"
abbreviation CR :: jschar where "CR \<equiv> 0x0D"
abbreviation SP :: jschar where "SP \<equiv> 0x20"
abbreviation HASH :: jschar where "HASH \<equiv> 0x23"
abbreviation STAR :: jschar where "STAR \<equiv> 0x2A"
abbreviation COMMA :: jschar where "COMMA \<equiv> 0x2C"
abbreviation HYPHEN :: jschar where "HYPHEN \<equiv> 0x2D"
abbreviation DOT :: jschar where "DOT \<equiv> 0x2E"
abbreviation SLASH :: jschar where "SLASH \<equiv> 0x2F"
abbreviation DQUOTE :: jschar where "DQUOTE \<equiv> 0x22"
abbreviation ELLIPSIS :: jschar where "ELLIPSIS \<equiv> 0x2026"
abbreviation BOM :: jschar where "BOM \<equiv> 0xFEFF"

text \<open>
  The class \<^verbatim>\<open>\s\<close> of a regular expression, which is also what
  \<^verbatim>\<open>trim\<close>, \<^verbatim>\<open>trimStart\<close> and \<^verbatim>\<open>trimEnd\<close> strip: the
  ECMAScript WhiteSpace and LineTerminator code points.
\<close>

definition is_space :: "jschar \<Rightarrow> bool" where
  "is_space c \<longleftrightarrow>
     c = 0x09 \<or> c = 0x0A \<or> c = 0x0B \<or> c = 0x0C \<or> c = 0x0D \<or> c = 0x20 \<or>
     c = 0xA0 \<or> c = 0x1680 \<or> (0x2000 \<le> c \<and> c \<le> 0x200A) \<or>
     c = 0x2028 \<or> c = 0x2029 \<or> c = 0x202F \<or> c = 0x205F \<or> c = 0x3000 \<or>
     c = 0xFEFF"

text \<open>The characters that \<^verbatim>\<open>.\<close> does not match (no \<^verbatim>\<open>s\<close> flag).\<close>

definition is_line_terminator :: "jschar \<Rightarrow> bool" where
  "is_line_terminator c \<longleftrightarrow> c = 0x0A \<or> c = 0x0D \<or> c = 0x2028 \<or> c = 0x2029"

text \<open>The class \<^verbatim>\<open>\d\<close>.\<close>

definition is_digit :: "jschar \<Rightarrow> bool" where
  "is_digit c \<longleftrightarrow> 0x30 \<le> c \<and> c \<le> 0x39"

definition trimStart :: "jsstring \<Rightarrow> jsstring" where
  "trimStart s = dropWhile is_space s"

definition trimEnd :: "jsstring \<Rightarrow> jsstring" where
  "trimEnd s = rev (dropWhile is_space (rev s))"

definition trim :: "jsstring \<Rightarrow> jsstring" where
  "trim s = trimEnd (trimStart s)"

text \<open>
  \<^verbatim>\<open>String(v ?? "")\<close> for a value that is a string, \<^verbatim>\<open>undefined\<close> or
  \<^verbatim>\<open>null\<close> (\<open>None\<close>).
\<close>

definition str_or_empty :: "jsstring option \<Rightarrow> jsstring" where
  "str_or_empty v = (case v of None \<Rightarrow> [] | Some s \<Rightarrow> s)"

text \<open>
  \<^verbatim>\<open>s.split(sep)\<close> for a separator that is one character of a class
  (\<^verbatim>\<open>"\n"\<close>, \<^verbatim>\<open>/[|,]/\<close>): the scanner keeps the piece read so far and
  closes it at each separator; the last piece is always returned.
\<close>

fun split_at :: "(jschar \<Rightarrow> bool) \<Rightarrow> jsstring \<Rightarrow> jsstring \<Rightarrow> jsstring list" where
  "split_at sep cur [] = [cur]"
| "split_at sep cur (c # cs) =
     (if sep c then cur # split_at sep [] cs else split_at sep (cur @ [c]) cs)"

text \<open>
  \<^verbatim>\<open>s.replace(/X+/g, r)\<close> for a character class \<open>X\<close> and a one-character
  replacement: every maximal run of the class becomes one \<open>r\<close>.
\<close>

function replace_runs :: "(jschar \<Rightarrow> bool) \<Rightarrow> jschar \<Rightarrow> jsstring \<Rightarrow> jsstring" where
  "replace_runs X r [] = []"
| "replace_runs X r (c # cs) =
     (if X c then r # replace_runs X r (dropWhile X cs) else c # replace_runs X r cs)"
  by pat_completeness auto
termination
  by (relation "measure (\<lambda>(X, r, s). length s)")
     (auto simp: length_dropWhile_le less_Suc_eq_le)

text \<open>\<^verbatim>\<open>a ?? b\<close> on values that are a string or absent.\<close>

definition orElse :: "'a option \<Rightarrow> 'a option \<Rightarrow> 'a option" where
  "orElse a b = (case a of Some x \<Rightarrow> Some x | None \<Rightarrow> b)"

text \<open>
  \<^verbatim>\<open>s.split(/\n{2,}/)\<close>: the separator is a maximal run of two or more line feeds;
  a single line feed stays inside its piece.
\<close>

function split_blank_lines :: "jsstring \<Rightarrow> jsstring \<Rightarrow> jsstring list" where
  "split_blank_lines cur [] = [cur]"
| "split_blank_lines cur (c # cs) =
     (if c = LF \<and> cs \<noteq> [] \<and> hd cs = LF
      then cur # split_blank_lines [] (dropWhile (\<lambda>d. d = LF) cs)
      else split_blank_lines (cur @ [c]) cs)"
  by pat_completeness auto
termination
  by (relation "measure (\<lambda>(cur, s). length s)")
     (auto simp: length_dropWhile_le less_Suc_eq_le)

section \<open>The block converter\<close>

text \<open>
  \<^verbatim>\<open>scripts/migrate-page-blocks-inplace.mjs\<close> and the article migration carry the same
  converter; they differ in the component family only (\<^verbatim>\<open>page.\<close> or
  \<^verbatim>\<open>article.\<close>), which is the parameter \<open>fam\<close> here.
\<close>

datatype heading_level = H1 | H2 | H3 | H4

datatype list_style = Ordered | Unordered

text \<open>
  A content block: the \<^verbatim>\<open>__component\<close> name first, then \<^verbatim>\<open>text\<close> and
  \<^verbatim>\<open>level\<close> of a heading, \<^verbatim>\<open>listStyle\<close> and \<^verbatim>\<open>itemsText\<close> of a list,
  \<^verbatim>\<open>body\<close> of a rich text.
\<close>

datatype block =
    SectionHeading jsstring jsstring heading_level
  | ListBlock jsstring list_style jsstring
  | RichText jsstring jsstring

definition splitTextBlocks :: "jsstring option \<Rightarrow> jsstring list" where
  "splitTextBlocks content =
     filter (\<lambda>b. b \<noteq> []) (map trim (split_blank_lines [] (str_or_empty content)))"

text \<open>\<^verbatim>\<open>/^[-*]\s+/\<close>: the length of the match at the start of the line, if any.\<close>

definition bullet_prefix :: "jsstring \<Rightarrow> nat option" where
  "bullet_prefix l =
     (case l of
        [] \<Rightarrow> None
      | c # cs \<Rightarrow>
          if (c = HYPHEN \<or> c = STAR) \<and> takeWhile is_space cs \<noteq> []
          then Some (1 + length (takeWhile is_space cs)) else None)"

text \<open>\<^verbatim>\<open>/^\d+\.\s+/\<close>: the length of the match at the start of the line, if any.\<close>

definition numbered_prefix :: "jsstring \<Rightarrow> nat option" where
  "numbered_prefix l =
     (let ds = takeWhile is_digit l; r = drop (length ds) l
      in case r of
           [] \<Rightarrow> None
         | c # cs \<Rightarrow>
             if ds \<noteq> [] \<and> c = DOT \<and> takeWhile is_space cs \<noteq> []
             then Some (length ds + 1 + length (takeWhile is_space cs)) else None)"

text \<open>\<^verbatim>\<open>line.replace(re, "")\<close> for one of the two anchored patterns.\<close>

definition strip_prefix :: "(jsstring \<Rightarrow> nat option) \<Rightarrow> jsstring \<Rightarrow> jsstring" where
  "strip_prefix re l = (case re l of None \<Rightarrow> l | Some n \<Rightarrow> drop n l)"

definition normalizeListLines :: "jsstring list \<Rightarrow> jsstring list" where
  "normalizeListLines lines =
     filter (\<lambda>l. l \<noteq> [])
       (map (\<lambda>l. trim (strip_prefix numbered_prefix (strip_prefix bullet_prefix l)))
          (filter (\<lambda>l. l \<noteq> []) (map trim lines)))"

text \<open>
  \<^verbatim>\<open>block.match(/^(#{1,4})\s+([\s\S]+)$/)\<close>: the length of group 1 and the text of
  group 2. Group 1 is greedy, so it is the whole run of leading markers, which must have
  one to four of them and be followed by white space; \<^verbatim>\<open>\s+\<close> takes the whole run
  of white space, unless nothing follows it, when it gives its last character back to
  group 2.
\<close>

definition heading_match :: "jsstring \<Rightarrow> (nat \<times> jsstring) option" where
  "heading_match b =
     (let depth = length (takeWhile (\<lambda>c. c = HASH) b);
          rest = drop depth b;
          ws = takeWhile is_space rest;
          after = drop (length ws) rest
      in if 1 \<le> depth \<and> depth \<le> 4 \<and> ws \<noteq> [] then
           (if after \<noteq> [] then Some (depth, after)
            else if 2 \<le> length ws then Some (depth, [last ws])
            else None)
         else None)"

definition level_of_depth :: "nat \<Rightarrow> heading_level" where
  "level_of_depth depth =
     (if depth = 1 then H1 else if depth = 2 then H2 else if depth = 3 then H3 else H4)"

text \<open>\<^verbatim>\<open>items.map((item) => `- ${item}`).join("\n")\<close>\<close>

fun join_lines :: "jsstring list \<Rightarrow> jsstring" where
  "join_lines [] = []"
| "join_lines [x] = x"
| "join_lines (x # y # ys) = x @ LF # join_lines (y # ys)"

definition items_text :: "jsstring list \<Rightarrow> jsstring" where
  "items_text items = join_lines (map (\<lambda>item. js ''- '' @ item) items)"

text \<open>
  The loop over the candidate blocks, with the output array \<^verbatim>\<open>dz\<close> passed along;
  each \<^verbatim>\<open>continue\<close> is the recursive call.
\<close>

fun convert_loop :: "jsstring \<Rightarrow> jsstring list \<Rightarrow> block list \<Rightarrow> block list" where
  "convert_loop fam [] dz = dz"
| "convert_loop fam (b # bs) dz =
     (case heading_match b of
        Some (depth, t) \<Rightarrow>
          convert_loop fam bs
            (dz @ [SectionHeading (fam @ js ''.section-heading'') (trim t) (level_of_depth depth)])
      | None \<Rightarrow>
          (let lines = filter (\<lambda>l. l \<noteq> []) (map trim (split_at (\<lambda>c. c = LF) [] b));
               isUnorderedList = (lines \<noteq> [] \<and> list_all (\<lambda>l. bullet_prefix l \<noteq> None) lines);
               isOrderedList = (lines \<noteq> [] \<and> list_all (\<lambda>l. numbered_prefix l \<noteq> None) lines)
           in if isUnorderedList \<or> isOrderedList then
                (let items = normalizeListLines lines
                 in if items \<noteq> [] then
                      convert_loop fam bs
                        (dz @ [ListBlock (fam @ js ''.list'')
                                 (if isOrderedList then Ordered else Unordered)
                                 (items_text items)])
                    else convert_loop fam bs dz)
              else convert_loop fam bs (dz @ [RichText (fam @ js ''.rich-text'') b])))"

definition convertContentToBlocks :: "jsstring \<Rightarrow> jsstring option \<Rightarrow> block list" where
  "convertContentToBlocks fam content = convert_loop fam (splitTextBlocks content) []"

text \<open>The converter of \<^verbatim>\<open>scripts/migrate-page-blocks-inplace.mjs\<close>.\<close>

definition page_blocks :: "jsstring option \<Rightarrow> block list" where
  "page_blocks content = convertContentToBlocks (js ''page'') content"

text \<open>The converter of the article migration script.\<close>

definition article_blocks :: "jsstring option \<Rightarrow> block list" where
  "article_blocks content = convertContentToBlocks (js ''article'') content"

section \<open>Normalising keys and derived fields\<close>

text \<open>
  \<^verbatim>\<open>String.prototype.toLowerCase\<close> belongs to the runtime, not to the repository; the
  functions that call it take it as the parameter \<open>lc\<close>. On strings of ASCII it is
  \<open>ascii_lower\<close>.
\<close>

definition ascii_lower :: "jsstring \<Rightarrow> jsstring" where
  "ascii_lower s = map (\<lambda>c. if 0x41 \<le> c \<and> c \<le> 0x5A then c + 0x20 else c) s"

definition parseBoolean :: "(jsstring \<Rightarrow> jsstring) \<Rightarrow> jsstring option \<Rightarrow> bool \<Rightarrow> bool" where
  "parseBoolean lc v fallback =
     (case v of
        None \<Rightarrow> fallback
      | Some s \<Rightarrow>
          if s = [] then fallback
          else (let normalized = lc (trim s)
                in if normalized \<in> set (map js [''true'', ''1'', ''yes'', ''y'']) then True
                   else if normalized \<in> set (map js [''false'', ''0'', ''no'', ''n'']) then False
                   else fallback))"




text \<open>\<^verbatim>\<open>normalizePath\<close> of the page importer and of the page migrations.\<close>

definition normalizePath :: "jsstring option \<Rightarrow> jsstring" where
  "normalizePath pathname =
     (let trimmed = trim (str_or_empty pathname)
      in if trimmed = [] \<or> trimmed = [SLASH] then [SLASH]
         else (let withLeading = (if hd trimmed = SLASH then trimmed else SLASH # trimmed)
               in rev (dropWhile (\<lambda>c. c = SLASH) (rev withLeading))))"


text \<open>\<^verbatim>\<open>text.replace(/\s+/g, " ").trim()\<close>\<close>

definition squash :: "jsstring \<Rightarrow> jsstring" where
  "squash s = trim (replace_runs is_space SP s)"

definition padding :: jsstring where
  "padding = js ''Read the full article on Commute ZA for practical commuter insights and route-planning guidance across South Africa.''"

definition minLength :: nat where "minLength = 120"

definition maxLength :: nat where "maxLength = 155"

definition buildMetaDescription :: "jsstring option \<Rightarrow> jsstring option \<Rightarrow> jsstring" where
  "buildMetaDescription v fallback =
     (let text0 = squash (str_or_empty v);
          fallbackText = squash (str_or_empty fallback);
          text1 = (if length text0 < minLength \<and> fallbackText \<noteq> []
                   then squash (if text0 \<noteq> [] then text0 @ SP # fallbackText else fallbackText)
                   else text0);
          text2 = (if length text1 < minLength
                   then squash (if text1 \<noteq> [] then text1 @ SP # padding else padding)
                   else text1)
      in if maxLength < length text2
         then trimEnd (take (maxLength - 1) text2) @ [ELLIPSIS]
         else text2)"

section \<open>The status code of a redirect\<close>

text \<open>
  \<^verbatim>\<open>STATUS_MAP\<close> is an object literal, and \<^verbatim>\<open>STATUS_MAP[normalized]\<close> is a
  property read: it finds the own properties written in the literal and, for any other
  name, the members every object literal inherits from \<^verbatim>\<open>Object.prototype\<close>. An
  inherited member is a function (or, for \<^verbatim>\<open>__proto__\<close>, the prototype object):
  not a string, and truthy.
\<close>

definition STATUS_MAP :: "(jsstring \<times> jsstring) list" where
  "STATUS_MAP =
     [(js ''301'', js ''Redirect-301''),
      (js ''302'', js ''Redirecct-302''),
      (js ''redirect-301'', js ''Redirect-301''),
      (js ''redirecct-302'', js ''Redirecct-302''),
      (js ''redirect-302'', js ''Redirecct-302'')]"

definition object_prototype_members :: "jsstring list" where
  "object_prototype_members =
     map js [''constructor'', ''__proto__'', ''hasOwnProperty'', ''isPrototypeOf'',
       ''propertyIsEnumerable'', ''toLocaleString'', ''toString'', ''valueOf'',
       ''__defineGetter__'', ''__defineSetter__'', ''__lookupGetter__'', ''__lookupSetter__'']"

text \<open>What a property read of an object literal of strings gives.\<close>

datatype property = OwnString jsstring | PrototypeMember jsstring | Undefined

definition read_property :: "(jsstring \<times> jsstring) list \<Rightarrow> jsstring \<Rightarrow> property" where
  "read_property obj name =
     (case map_of obj name of
        Some s \<Rightarrow> OwnString s
      | None \<Rightarrow> if name \<in> set object_prototype_members then PrototypeMember name else Undefined)"

text \<open>
  \<^verbatim>\<open>toStatusCode\<close>: what it returns is what the property read gave whenever that is
  truthy.
\<close>

definition toStatusCode :: "(jsstring \<Rightarrow> jsstring) \<Rightarrow> jsstring option \<Rightarrow> property" where
  "toStatusCode lc v =
     (case v of
        None \<Rightarrow> OwnString (js ''Redirect-301'')
      | Some s \<Rightarrow>
          if s = [] then OwnString (js ''Redirect-301'')
          else (case read_property STATUS_MAP (lc (trim s)) of
                  OwnString t \<Rightarrow> if t \<noteq> [] then OwnString t else OwnString (js ''Redirect-301'')
                | PrototypeMember m \<Rightarrow> PrototypeMember m
                | Undefined \<Rightarrow> OwnString (js ''Redirect-301'')))"

section \<open>The tabular parser\<close>

text \<open>
  A row of the input: the own properties written by the parser, in the order of their
  first assignment, and the line number \<^verbatim>\<open>__line\<close>.
\<close>

record input_row =
  props :: "(jsstring \<times> jsstring) list"
  line_no :: nat

text \<open>
  \<^verbatim>\<open>rowData[header] = value\<close> on an object literal: an assignment to
  \<^verbatim>\<open>__proto__\<close> of a string is ignored and creates no property.
\<close>

definition set_property ::
  "jsstring \<Rightarrow> jsstring \<Rightarrow> (jsstring \<times> jsstring) list \<Rightarrow> (jsstring \<times> jsstring) list" where
  "set_property name v obj = (if name = js ''__proto__'' then obj else AList.update name v obj)"

text \<open>
  \<^verbatim>\<open>headers.forEach((header, index) => { rowData[header] = cells[index] ?? ""; })\<close>
\<close>

fun assign_headers ::
  "jsstring list \<Rightarrow> jsstring list \<Rightarrow> (jsstring \<times> jsstring) list \<Rightarrow> (jsstring \<times> jsstring) list" where
  "assign_headers [] cells obj = obj"
| "assign_headers (h # hs) cells obj =
     assign_headers hs (tl cells) (set_property h (case cells of [] \<Rightarrow> [] | c # _ \<Rightarrow> c) obj)"

subsection \<open>\<^verbatim>\<open>parseCsv\<close> of the article and page importers\<close>

datatype parse_error = UnmatchedQuote

record csv_state =
  records :: "jsstring list list"
  recordStartLines :: "nat list"
  row :: "jsstring list"
  cell :: jsstring
  inQuotes :: bool
  line :: nat
  rowStartLine :: nat

definition csv_init :: csv_state where
  "csv_init =
     \<lparr>records = [], recordStartLines = [], row = [], cell = [], inQuotes = False,
      line = 1, rowStartLine = 1\<rparr>"

definition pushCell :: "csv_state \<Rightarrow> csv_state" where
  "pushCell st = st\<lparr>row := row st @ [cell st], cell := []\<rparr>"

definition pushRow :: "csv_state \<Rightarrow> csv_state" where
  "pushRow st =
     (let st1 = pushCell st
      in st1\<lparr>records := records st1 @ [row st1],
              recordStartLines := recordStartLines st1 @ [rowStartLine st1],
              row := [],
              rowStartLine := line st1\<rparr>)"

text \<open>
  The scanning loop, on the characters not yet read: \<^verbatim>\<open>next\<close> is the head of what
  follows, and \<^verbatim>\<open>i += 1\<close> drops it.
\<close>

fun csv_scan :: "csv_state \<Rightarrow> jsstring \<Rightarrow> csv_state" where
  "csv_scan st [] = st"
| "csv_scan st (c # cs) =
     (if c = DQUOTE then
        (if inQuotes st \<and> cs \<noteq> [] \<and> hd cs = DQUOTE
         then csv_scan (st\<lparr>cell := cell st @ [DQUOTE]\<rparr>) (tl cs)
         else csv_scan (st\<lparr>inQuotes := \<not> inQuotes st\<rparr>) cs)
      else if \<not> inQuotes st \<and> c = COMMA then csv_scan (pushCell st) cs
      else if \<not> inQuotes st \<and> (c = LF \<or> c = CR) then
        (let st1 = pushRow st;
             st2 = st1\<lparr>line := line st1 + 1\<rparr>
         in csv_scan (st2\<lparr>rowStartLine := line st2\<rparr>)
              (if c = CR \<and> cs \<noteq> [] \<and> hd cs = LF then tl cs else cs))
      else csv_scan (st\<lparr>cell := cell st @ [c]\<rparr>) cs)"

text \<open>The loop that maps the data records to rows; \<open>i\<close> is its index.\<close>

fun map_records :: "jsstring list \<Rightarrow> jsstring list list \<Rightarrow> nat list \<Rightarrow> nat \<Rightarrow> input_row list" where
  "map_records headers [] dataLines i = []"
| "map_records headers (cells # rest) dataLines i =
     (if list_ex (\<lambda>v. trim v \<noteq> []) cells
      then \<lparr>props = assign_headers headers cells [],
            line_no = (if i < length dataLines then dataLines ! i else i + 2)\<rparr>
           # map_records headers rest dataLines (i + 1)
      else map_records headers rest dataLines (i + 1))"

definition strip_bom :: "jsstring \<Rightarrow> jsstring" where
  "strip_bom txt = (case txt of [] \<Rightarrow> [] | c # cs \<Rightarrow> if c = BOM then cs else txt)"

definition parseCsv :: "jsstring \<Rightarrow> parse_error + input_row list" where
  "parseCsv txt =
     (let st = csv_scan csv_init (strip_bom txt)
      in if inQuotes st then Inl UnmatchedQuote
         else (let st' = (if cell st \<noteq> [] \<or> row st \<noteq> [] then pushRow st else st)
               in if length (records st') < 2 then Inr []
                  else Inr (map_records (map trim (hd (records st')))
                              (tl (records st')) (tl (recordStartLines st')) 0)))"

subsection \<open>\<^verbatim>\<open>parseCsv\<close> of the redirect importer\<close>

text \<open>\<^verbatim>\<open>parseCsvLine\<close>: the cells so far, the current cell, the quote flag.\<close>

fun csv_line_scan :: "jsstring list \<Rightarrow> jsstring \<Rightarrow> bool \<Rightarrow> jsstring \<Rightarrow> jsstring list" where
  "csv_line_scan cells current inQ [] = cells @ [trim current]"
| "csv_line_scan cells current inQ (c # cs) =
     (if c = DQUOTE \<and> inQ \<and> cs \<noteq> [] \<and> hd cs = DQUOTE
      then csv_line_scan cells (current @ [DQUOTE]) inQ (tl cs)
      else if c = DQUOTE then csv_line_scan cells current (\<not> inQ) cs
      else if c = COMMA \<and> \<not> inQ then csv_line_scan (cells @ [trim current]) [] inQ cs
      else csv_line_scan cells (current @ [c]) inQ cs)"

definition parseCsvLine :: "jsstring \<Rightarrow> jsstring list" where
  "parseCsvLine l = csv_line_scan [] [] False l"

text \<open>\<^verbatim>\<open>text.split(/\r?\n/)\<close>\<close>

fun split_newlines :: "jsstring \<Rightarrow> jsstring \<Rightarrow> jsstring list" where
  "split_newlines cur [] = [cur]"
| "split_newlines cur (c # cs) =
     (if c = LF then cur # split_newlines [] cs
      else if c = CR \<and> cs \<noteq> [] \<and> hd cs = LF then cur # split_newlines [] (tl cs)
      else split_newlines (cur @ [c]) cs)"

text \<open>This parser has no \<^verbatim>\<open>throw\<close>: it returns rows for every text.\<close>

definition redirect_parseCsv :: "jsstring \<Rightarrow> input_row list" where
  "redirect_parseCsv txt =
     (let lines = filter (\<lambda>l. l \<noteq> []) (map trim (split_newlines [] txt))
      in if length lines < 2 then []
         else (let headers = map trim (parseCsvLine (hd lines))
               in map (\<lambda>(index, l).
                         \<lparr>props = assign_headers headers (parseCsvLine l) [],
                          line_no = index + 2\<rparr>)
                    (enumerate 0 (tl lines))))"

section \<open>The remote store and the runtime\<close>

text \<open>
  A record identifier of the store: \<^verbatim>\<open>id\<close> is a number, \<^verbatim>\<open>documentId\<close> a
  string.
\<close>

datatype jsid = IdNumber int | IdString jsstring

text \<open>\<^verbatim>\<open>if (id)\<close> and \<^verbatim>\<open>!entryId\<close>: zero and the empty string are falsy.\<close>

definition truthy_id :: "jsid option \<Rightarrow> bool" where
  "truthy_id i =
     (case i of None \<Rightarrow> False | Some (IdNumber n) \<Rightarrow> n \<noteq> 0 | Some (IdString t) \<Rightarrow> t \<noteq> [])"

text \<open>
  A record of a response, with what the scripts read of it; the attributes are those
  that \<^verbatim>\<open>getAttributes\<close> finds, under \<^verbatim>\<open>attributes\<close> or on the record itself.
\<close>

record entry =
  e_documentId :: "jsid option"
  e_id :: "jsid option"
  e_routePath :: "jsstring option"
  e_content :: "jsstring option"
  e_contentBlocks :: "block list option"

definition getEntryId :: "entry \<Rightarrow> jsid option" where
  "getEntryId e = orElse (e_documentId e) (e_id e)"

text \<open>
  What is sent as \<^verbatim>\<open>data\<close>. The clock is not modelled: \<open>PNowIso\<close> stands for
  \<^verbatim>\<open>new Date().toISOString()\<close> and \<open>PTodayIso\<close> for its first ten characters.
  \<open>PNumber\<close> is \<^verbatim>\<open>Number(raw)\<close> of a string of digits, \<open>PJson\<close> the value
  of \<^verbatim>\<open>JSON.parse\<close> on a text.
\<close>

datatype pvalue =
    PString jsstring
  | PBoolean bool
  | PNull
  | PNowIso
  | PTodayIso
  | PNumber jsstring
  | PJson jsstring
  | PIds "jsid list"
  | PBlocks "block list"
  | PProperty property
  | PArray "pvalue list"
  | PObject "(string \<times> pvalue) list"

type_synonym payload = "(string \<times> pvalue) list"

text \<open>
  The three requests of the scripts: the lookup
  \<^verbatim>\<open>GET endpoint?filters[field][$eq]=value&pagination[pageSize]=1\<close>, the creation
  \<^verbatim>\<open>POST endpoint\<close> and the update \<^verbatim>\<open>PUT endpoint/id\<close>.
\<close>

datatype request =
    Find string string jsstring
  | Create string payload
  | Update string jsid payload


text \<open>The \<^verbatim>\<open>data\<close> of a response envelope: an array of records, or one record.\<close>

datatype reply = DataArray "entry list" | DataObject "entry option"

text \<open>
  A response: not \<^verbatim>\<open>ok\<close>, with the text that \<^verbatim>\<open>strapiRequest\<close> puts in its
  error, or a JSON envelope.
\<close>

datatype response = HttpError jsstring | HttpOk reply

text \<open>
  The store is outside the repository. It is any deterministic machine: from its state
  and a request, a response and its next state.
\<close>

type_synonym 'st server = "'st \<Rightarrow> request \<Rightarrow> response \<times> 'st"

text \<open>The state of the store, and the requests sent so far, oldest first.\<close>

type_synonym 'st world = "'st \<times> request list"

datatype exn = HttpFailure jsstring | InvalidSchemaJson nat

definition strapiRequest :: "'st server \<Rightarrow> request \<Rightarrow> 'st world \<Rightarrow> (exn + reply) \<times> 'st world" where
  "strapiRequest srv rq w =
     (case srv (fst w) rq of
        (HttpError m, s') \<Rightarrow> (Inl (HttpFailure m), (s', snd w @ [rq]))
      | (HttpOk r, s') \<Rightarrow> (Inr r, (s', snd w @ [rq])))"

text \<open>\<^verbatim>\<open>result?.data?.[0] || null\<close>\<close>

definition first_entry :: "reply \<Rightarrow> entry option" where
  "first_entry r = (case r of DataArray (e # _) \<Rightarrow> Some e | _ \<Rightarrow> None)"


text \<open>
  What the scripts take from the JavaScript runtime: \<^verbatim>\<open>toLowerCase\<close>;
  \<^verbatim>\<open>JSON.parse\<close>, which throws (\<open>None\<close>) or gives a value that is truthy or not;
  \<^verbatim>\<open>new Date(raw)\<close>, which is invalid (\<open>None\<close>) or has the date
  \<^verbatim>\<open>toISOString().slice(0, 10)\<close>.
\<close>

record runtime =
  toLowerCase :: "jsstring \<Rightarrow> jsstring"
  jsonParse :: "jsstring \<Rightarrow> bool option"
  isoDate :: "jsstring \<Rightarrow> jsstring option"

datatype upsert_mode = ModeUpdate | ModeSkip

datatype article_type = Blog | News

text \<open>The options read from the environment and the command line.\<close>

record options =
  upsertMode :: upsert_mode
  dryRun :: bool
  forcePublish :: bool
  forceUnpublish :: bool
  clearLegacyContent :: bool
  onlyWhenEmptyBlocks :: bool
  articleType :: article_type
  defaultCoverImageId :: "jsstring option"

text \<open>The lines written to the console for a row, with the values they interpolate.\<close>

datatype log_line =
    LogMissing nat jsstring jsstring
  | LogDuplicate nat jsstring
  | LogSkip jsstring
  | LogCannotUpdate nat jsstring
  | LogUpdate "jsstring list"
  | LogCreate "jsstring list"
  | LogFailed nat jsstring exn
  | LogFailNoId jsstring
  | LogSkipNoContent jsstring
  | LogSkipHasBlocks jsstring nat
  | LogSkipNoBlocks jsstring
  | LogMigrated jsstring nat
  | LogFailUpdate jsstring exn

text \<open>
  The counters of an import, the console lines, the set of keys seen, and the world.
\<close>

record 'st batch =
  created :: nat
  updated :: nat
  skipped :: nat
  failed :: nat
  report :: "log_line list"
  seen :: "jsstring set"
  world :: "'st world"

definition batch_init :: "'st world \<Rightarrow> 'st batch" where
  "batch_init w =
     \<lparr>created = 0, updated = 0, skipped = 0, failed = 0, report = [], seen = {}, world = w\<rparr>"

text \<open>What \<^verbatim>\<open>run\<close> prints at its end: the early return, or the summary.\<close>

datatype 'r run_result = NoRows | Summary 'r

definition field :: "input_row \<Rightarrow> string \<Rightarrow> jsstring option" where
  "field r name = map_of (props r) (js name)"

definition safeJson :: "runtime \<Rightarrow> jsstring option \<Rightarrow> nat \<Rightarrow> exn + (jsstring \<times> bool) option" where
  "safeJson rt v lineNumber =
     (case v of
        None \<Rightarrow> Inr None
      | Some t \<Rightarrow>
          if t = [] then Inr None
          else (let trimmed = trim t
                in if trimmed = [] then Inr None
                   else (case jsonParse rt trimmed of
                           None \<Rightarrow> Inl (InvalidSchemaJson lineNumber)
                         | Some truthy \<Rightarrow> Inr (Some (trimmed, truthy)))))"

text \<open>The optional \<^verbatim>\<open>schemaJson\<close> member: present when the parsed value is truthy.\<close>

definition schema_member :: "(jsstring \<times> bool) option \<Rightarrow> payload" where
  "schema_member j =
     (case j of Some (t, True) \<Rightarrow> [(''schemaJson'', PJson t)] | _ \<Rightarrow> [])"

definition schema_truthy :: "(jsstring \<times> bool) option \<Rightarrow> bool" where
  "schema_truthy j = (case j of Some (t, True) \<Rightarrow> True | _ \<Rightarrow> False)"

section \<open>The article importer\<close>








definition tag_payload :: "options \<Rightarrow> jsstring \<Rightarrow> jsstring \<Rightarrow> payload" where
  "tag_payload opts name slug =
     [(''name'', PString name), (''slug'', PString slug)]
     @ (if forcePublish opts then [(''publishedAt'', PNowIso)] else [])"









section \<open>The page importer\<close>

text \<open>\<^verbatim>\<open>payload.routePath\<close> and \<^verbatim>\<open>payload.pageName\<close> of a row.\<close>

definition page_routePath :: "input_row \<Rightarrow> jsstring" where
  "page_routePath r = normalizePath (field r ''routePath'')"

definition page_pageName :: "input_row \<Rightarrow> jsstring" where
  "page_pageName r = trim (str_or_empty (field r ''pageName''))"

definition page_payload :: "options \<Rightarrow> runtime \<Rightarrow> input_row \<Rightarrow> exn + payload" where
  "page_payload opts rt r =
     (let metaTitle = trim (str_or_empty (field r ''metaTitle''));
          metaDescription = trim (str_or_empty (field r ''metaDescription''));
          canonicalUrl = trim (str_or_empty (field r ''canonicalUrl''));
          noindex = parseBoolean (toLowerCase rt) (field r ''noindex'') False
      in case safeJson rt (field r ''schemaJson'') (line_no r) of
           Inl e \<Rightarrow> Inl e
         | Inr schemaJson \<Rightarrow>
             (let seo =
                    (if metaTitle \<noteq> [] \<or> metaDescription \<noteq> [] \<or> canonicalUrl \<noteq> []
                        \<or> schema_truthy schemaJson \<or> noindex
                     then [(''seo'',
                            PObject
                              ((if metaTitle \<noteq> [] then [(''metaTitle'', PString metaTitle)] else [])
                               @ (if metaDescription \<noteq> []
                                  then [(''metaDescription'', PString metaDescription)] else [])
                               @ (if canonicalUrl \<noteq> []
                                  then [(''canonicalUrl'', PString canonicalUrl)] else [])
                               @ [(''noindex'', PBoolean noindex)]
                               @ schema_member schemaJson))]
                     else []);
                  shouldUnpublish =
                    (forceUnpublish opts \<or> parseBoolean (toLowerCase rt) (field r ''unpublish'') False)
              in Inr ([(''routePath'', PString (page_routePath r)),
                       (''pageName'', PString (page_pageName r)),
                       (''content'', PString (str_or_empty (field r ''content''))),
                       (''isActive'',
                        PBoolean (parseBoolean (toLowerCase rt) (field r ''isActive'') True))]
                      @ seo
                      @ (if forcePublish opts then [(''publishedAt'', PNowIso)]
                         else if shouldUnpublish then [(''publishedAt'', PNull)]
                         else []))))"

text \<open>The \<^verbatim>\<open>try\<close> of a row, in two parts as for the articles; the second first.\<close>

definition page_upsert ::
  "options \<Rightarrow> 'st server \<Rightarrow> input_row \<Rightarrow> jsstring \<Rightarrow> payload \<Rightarrow> reply \<Rightarrow> 'st world
     \<Rightarrow> 'st batch \<Rightarrow> exn option \<times> 'st batch" where
  "page_upsert opts srv r routePath data found w2 b1 =
     (case first_entry found of
        Some existing \<Rightarrow>
          if upsertMode opts = ModeSkip then
            (None, b1\<lparr>skipped := skipped b1 + 1,
                      report := report b1 @ [LogSkip routePath],
                      world := w2\<rparr>)
          else
            (case getEntryId existing of
               None \<Rightarrow>
                 (None, b1\<lparr>failed := failed b1 + 1,
                           report := report b1 @ [LogCannotUpdate (line_no r) routePath],
                           world := w2\<rparr>)
             | Some entryId \<Rightarrow>
                 if \<not> truthy_id (Some entryId) then
                   (None, b1\<lparr>failed := failed b1 + 1,
                             report := report b1 @ [LogCannotUpdate (line_no r) routePath],
                             world := w2\<rparr>)
                 else if \<not> dryRun opts then
                   (case strapiRequest srv (Update ''/api/pages'' entryId data) w2 of
                      (Inl e, w3) \<Rightarrow> (Some e, b1\<lparr>world := w3\<rparr>)
                    | (Inr _, w3) \<Rightarrow>
                        (None, b1\<lparr>updated := updated b1 + 1,
                                  report := report b1 @ [LogUpdate [routePath]],
                                  world := w3\<rparr>))
                 else
                   (None, b1\<lparr>updated := updated b1 + 1,
                             report := report b1 @ [LogUpdate [routePath]],
                             world := w2\<rparr>))
      | None \<Rightarrow>
          if \<not> dryRun opts then
            (case strapiRequest srv (Create ''/api/pages'' data) w2 of
               (Inl e, w3) \<Rightarrow> (Some e, b1\<lparr>world := w3\<rparr>)
             | (Inr _, w3) \<Rightarrow>
                 (None, b1\<lparr>created := created b1 + 1,
                           report := report b1 @ [LogCreate [routePath]],
                           world := w3\<rparr>))
          else
            (None, b1\<lparr>created := created b1 + 1,
                      report := report b1 @ [LogCreate [routePath]],
                      world := w2\<rparr>))"

definition page_try ::
  "options \<Rightarrow> runtime \<Rightarrow> 'st server \<Rightarrow> input_row \<Rightarrow> 'st batch \<Rightarrow> exn option \<times> 'st batch" where
  "page_try opts rt srv r b =
     (case page_payload opts rt r of
        Inl e \<Rightarrow> (Some e, b)
      | Inr data \<Rightarrow>
          (let routePath = page_routePath r
           in if routePath = [] \<or> page_pageName r = [] then
                (None, b\<lparr>failed := failed b + 1,
                         report := report b
                           @ [LogMissing (line_no r) routePath (page_pageName r)]\<rparr>)
              else if routePath \<in> seen b then
                (None, b\<lparr>failed := failed b + 1,
                         report := report b @ [LogDuplicate (line_no r) routePath]\<rparr>)
              else
                (let b1 = b\<lparr>seen := insert routePath (seen b)\<rparr>
                 in case strapiRequest srv (Find ''/api/pages'' ''routePath'' routePath)
                           (world b1) of
                      (Inl e, w2) \<Rightarrow> (Some e, b1\<lparr>world := w2\<rparr>)
                    | (Inr found, w2) \<Rightarrow>
                        page_upsert opts srv r routePath data found w2 b1)))"

definition page_row ::
  "options \<Rightarrow> runtime \<Rightarrow> 'st server \<Rightarrow> input_row \<Rightarrow> 'st batch \<Rightarrow> 'st batch" where
  "page_row opts rt srv r b =
     (case page_try opts rt srv r b of
        (None, b') \<Rightarrow> b'
      | (Some e, b') \<Rightarrow>
          b'\<lparr>failed := failed b' + 1,
             report := report b'
               @ [LogFailed (line_no r) (str_or_empty (field r ''routePath'')) e]\<rparr>)"

fun page_loop ::
  "options \<Rightarrow> runtime \<Rightarrow> 'st server \<Rightarrow> input_row list \<Rightarrow> 'st batch \<Rightarrow> 'st batch" where
  "page_loop opts rt srv [] b = b"
| "page_loop opts rt srv (r # rs) b = page_loop opts rt srv rs (page_row opts rt srv r b)"

text \<open>\<^verbatim>\<open>run\<close> of the page importer, from the parsed rows on.\<close>

definition importPages ::
  "options \<Rightarrow> runtime \<Rightarrow> 'st server \<Rightarrow> input_row list \<Rightarrow> 'st world \<Rightarrow> 'st batch run_result" where
  "importPages opts rt srv rows w =
     (if rows = [] then NoRows else Summary (page_loop opts rt srv rows (batch_init w)))"

section \<open>The redirect importer\<close>







section \<open>The in-place migration of pages\<close>

record 'st migration =
  m_updated :: nat
  m_skippedNoContent :: nat
  m_skippedHasBlocks :: nat
  m_skippedNoBlocksProduced :: nat
  m_failed :: nat
  m_report :: "log_line list"
  m_world :: "'st world"

definition migration_init :: "'st world \<Rightarrow> 'st migration" where
  "migration_init w =
     \<lparr>m_updated = 0, m_skippedNoContent = 0, m_skippedHasBlocks = 0,
      m_skippedNoBlocksProduced = 0, m_failed = 0, m_report = [], m_world = w\<rparr>"

text \<open>The payload of an update: the blocks, and what the options add.\<close>

definition migration_payload :: "options \<Rightarrow> block list \<Rightarrow> payload" where
  "migration_payload opts migratedBlocks =
     [(''contentBlocks'', PBlocks migratedBlocks)]
     @ (if clearLegacyContent opts then [(''content'', PString [])] else [])
     @ (if forcePublish opts then [(''publishedAt'', PNowIso)] else [])"

text \<open>One turn of the loop over the pages that were fetched.\<close>

definition migrate_entry :: "options \<Rightarrow> 'st server \<Rightarrow> entry \<Rightarrow> 'st migration \<Rightarrow> 'st migration" where
  "migrate_entry opts srv e m =
     (let routePath = normalizePath (orElse (e_routePath e) (Some [SLASH]));
          content = str_or_empty (e_content e);
          existingBlocks = (case e_contentBlocks e of Some bs \<Rightarrow> bs | None \<Rightarrow> [])
      in case getEntryId e of
           None \<Rightarrow>
             m\<lparr>m_failed := m_failed m + 1, m_report := m_report m @ [LogFailNoId routePath]\<rparr>
         | Some ident \<Rightarrow>
             if \<not> truthy_id (Some ident) then
               m\<lparr>m_failed := m_failed m + 1, m_report := m_report m @ [LogFailNoId routePath]\<rparr>
             else if trim content = [] then
               m\<lparr>m_skippedNoContent := m_skippedNoContent m + 1,
                 m_report := m_report m @ [LogSkipNoContent routePath]\<rparr>
             else if onlyWhenEmptyBlocks opts \<and> existingBlocks \<noteq> [] then
               m\<lparr>m_skippedHasBlocks := m_skippedHasBlocks m + 1,
                 m_report := m_report m @ [LogSkipHasBlocks routePath (length existingBlocks)]\<rparr>
             else
               (let migratedBlocks = page_blocks (Some content)
                in if migratedBlocks = [] then
                     m\<lparr>m_skippedNoBlocksProduced := m_skippedNoBlocksProduced m + 1,
                       m_report := m_report m @ [LogSkipNoBlocks routePath]\<rparr>
                   else
                     (let data = migration_payload opts migratedBlocks
                      in if \<not> dryRun opts then
                           (case strapiRequest srv (Update ''/api/pages'' ident data) (m_world m) of
                              (Inl ex, w') \<Rightarrow>
                                m\<lparr>m_failed := m_failed m + 1,
                                  m_report := m_report m @ [LogFailUpdate routePath ex],
                                  m_world := w'\<rparr>
                            | (Inr _, w') \<Rightarrow>
                                m\<lparr>m_updated := m_updated m + 1,
                                  m_report := m_report m
                                    @ [LogMigrated routePath (length migratedBlocks)],
                                  m_world := w'\<rparr>)
                         else
                           m\<lparr>m_updated := m_updated m + 1,
                             m_report := m_report m
                               @ [LogMigrated routePath (length migratedBlocks)]\<rparr>)))"



section \<open>The patterns of a heading, as sets of strings\<close>

text \<open>The number of marker characters at the start of a block.\<close>

definition leading_markers :: "jsstring \<Rightarrow> nat" where
  "leading_markers b = length (takeWhile (\<lambda>c. c = HASH) b)"

text \<open>
  The strings of the pattern of the source, \<^verbatim>\<open>^(#{1,4})\s+([\s\S]+)$\<close>: \<open>k\<close> markers
  with \<open>k\<close> from one to four, then \<open>n\<close> characters of white space with \<open>n\<close> at least
  one, then at least one character of any kind.
\<close>

definition heading_pattern :: "jsstring \<Rightarrow> bool" where
  "heading_pattern b \<longleftrightarrow>
     list_ex (\<lambda>k. list_ex (\<lambda>n.
         take k b = replicate k HASH \<and> k + n < length b
         \<and> list_all is_space (take n (drop k b)))
       [1..<length b]) [1..<5]"

text \<open>
  The strings of the pattern as the specification writes it,
  \<^verbatim>\<open>^(#{1,4})\s+(.+)$\<close>: as above, but what follows the white space has no line
  terminator, since \<^verbatim>\<open>.\<close> matches none.
\<close>

definition spec_heading_pattern :: "jsstring \<Rightarrow> bool" where
  "spec_heading_pattern b \<longleftrightarrow>
     list_ex (\<lambda>k. list_ex (\<lambda>n.
         take k b = replicate k HASH \<and> k + n < length b
         \<and> list_all is_space (take n (drop k b))
         \<and> list_all (\<lambda>c. \<not> is_line_terminator c) (drop (k + n) b))
       [1..<length b]) [1..<5]"

section \<open>Outcomes and tallies\<close>










text \<open>The key that a payload carries, and the endpoint and key that a request is about.\<close>

definition payload_key :: "payload \<Rightarrow> jsstring" where
  "payload_key data = (case map_of data ''slug'' of Some (PString k) \<Rightarrow> k | _ \<Rightarrow> [])"






section \<open>Records of a text\<close>

definition quote_count :: "jsstring \<Rightarrow> nat" where
  "quote_count s = length (filter (\<lambda>c. c = DQUOTE) s)"

text \<open>The records of a text with no unmatched quote, after the final flush.\<close>

definition csv_records :: "jsstring \<Rightarrow> jsstring list list" where
  "csv_records txt =
     (let st = csv_scan csv_init (strip_bom txt)
      in records (if cell st \<noteq> [] \<or> row st \<noteq> [] then pushRow st else st))"

section \<open>Frames, verdicts and examples\<close>





text \<open>The counters and the console lines of a migration.\<close>

definition m_tally :: "'st migration \<Rightarrow> nat \<times> nat \<times> nat \<times> nat \<times> nat \<times> log_line list" where
  "m_tally m =
     (m_updated m, m_skippedNoContent m, m_skippedHasBlocks m, m_skippedNoBlocksProduced m,
      m_failed m, m_report m)"






text \<open>Options, a runtime, stores and rows to run the scripts on.\<close>

definition example_options :: options where
  "example_options =
     \<lparr>upsertMode = ModeUpdate, dryRun = False, forcePublish = False, forceUnpublish = False,
      clearLegacyContent = False, onlyWhenEmptyBlocks = True, articleType = Blog,
      defaultCoverImageId = None\<rparr>"


text \<open>A store with no record, which accepts every write.\<close>

definition empty_store :: "unit server" where
  "empty_store s rq =
     (case rq of
        Find _ _ _ \<Rightarrow> (HttpOk (DataArray []), s)
      | Create _ _ \<Rightarrow> (HttpOk (DataObject None), s)
      | Update _ _ _ \<Rightarrow> (HttpOk (DataObject None), s))"




definition example_page :: entry where
  "example_page =
     \<lparr>e_documentId = Some (IdString (js ''doc1'')), e_id = Some (IdNumber 1),
      e_routePath = Some (js ''/about''), e_content = Some (js ''# About''),
      e_contentBlocks = None\<rparr>"


section \<open>Canonical keys\<close>

text \<open>Whether a string has the character \<open>h\<close> twice in a row.\<close>

fun adjacent_pair :: "jschar \<Rightarrow> jsstring \<Rightarrow> bool" where
  "adjacent_pair h (a # b # cs) = ((a = h \<and> b = h) \<or> adjacent_pair h (b # cs))"
| "adjacent_pair h [a] = False"
| "adjacent_pair h [] = False"


section \<open>Properties of the block converter\<close>

lemma is_space_not_hash: "is_space c \<Longrightarrow> c \<noteq> HASH"
  by (auto simp: is_space_def)

lemma takeWhile_eq_replicate: "takeWhile (\<lambda>c. c = x) b = replicate (length (takeWhile (\<lambda>c. c = x) b)) x"
  by (induction b) auto

lemma take_leading_markers: "take (leading_markers b) b = replicate (leading_markers b) HASH"
  unfolding leading_markers_def
  by (metis takeWhile_eq_replicate takeWhile_eq_take)

lemma prefix_le_takeWhile:
  "n \<le> length xs \<Longrightarrow> \<forall>c\<in>set (take n xs). P c \<Longrightarrow> n \<le> length (takeWhile P xs)"
proof (induction xs arbitrary: n)
  case Nil
  then show ?case by simp
next
  case (Cons x xs)
  then show ?case by (cases n) auto
qed

lemma leading_markers_decomp:
  assumes "take k b = replicate k HASH" "k < length b" "is_space (b ! k)"
  shows "leading_markers b = k"
proof -
  have b: "b = replicate k HASH @ drop k b"
    using assms(1) by (metis append_take_drop_id)
  have d: "drop k b = b ! k # drop (Suc k) b"
    using assms(2) by (simp add: Cons_nth_drop_Suc)
  have "takeWhile (\<lambda>c. c = HASH) b = replicate k HASH @ takeWhile (\<lambda>c. c = HASH) (drop k b)"
    by (subst b) (rule takeWhile_append2, simp)
  also have "takeWhile (\<lambda>c. c = HASH) (drop k b) = []"
    using d is_space_not_hash[OF assms(3)] by simp
  finally show ?thesis by (simp add: leading_markers_def)
qed

lemma heading_pattern_iff:
  "heading_pattern b \<longleftrightarrow>
    (\<exists>k n. 1 \<le> k \<and> k \<le> 4 \<and> 1 \<le> n \<and> take k b = replicate k HASH \<and> k + n < length b
       \<and> (\<forall>c\<in>set (take n (drop k b)). is_space c))"
proof
  assume "heading_pattern b"
  then obtain k n where "k \<in> set [1..<5]" "n \<in> set [1..<length b]"
    "take k b = replicate k HASH" "k + n < length b" "list_all is_space (take n (drop k b))"
    unfolding heading_pattern_def list_ex_iff by blast
  then show "\<exists>k n. 1 \<le> k \<and> k \<le> 4 \<and> 1 \<le> n \<and> take k b = replicate k HASH \<and> k + n < length b
       \<and> (\<forall>c\<in>set (take n (drop k b)). is_space c)"
    by (intro exI[of _ k] exI[of _ n]) (simp add: list_all_iff)
next
  assume "\<exists>k n. 1 \<le> k \<and> k \<le> 4 \<and> 1 \<le> n \<and> take k b = replicate k HASH \<and> k + n < length b
       \<and> (\<forall>c\<in>set (take n (drop k b)). is_space c)"
  then obtain k n where kn: "1 \<le> k" "k \<le> 4" "1 \<le> n" "take k b = replicate k HASH"
    "k + n < length b" "\<forall>c\<in>set (take n (drop k b)). is_space c"
    by blast
  have "k \<in> set [1..<5]" "n \<in> set [1..<length b]"
    using kn by auto
  moreover have "list_all is_space (take n (drop k b))"
    using kn(6) by (simp add: list_all_iff)
  ultimately show "heading_pattern b"
    unfolding heading_pattern_def list_ex_iff using kn(4,5)
    by blast
qed

lemma heading_match_Some_pattern:
  assumes "heading_match b = Some (d, t)"
  shows "heading_pattern b \<and> d = leading_markers b \<and> trim t = trim (drop d b)"
proof -
  define k where "k = leading_markers b"
  define rest where "rest = drop k b"
  define ws where "ws = takeWhile is_space rest"
  define after where "after = drop (length ws) rest"
  have after_dw: "after = dropWhile is_space rest"
    by (simp add: after_def ws_def dropWhile_eq_drop)
  have rest_eq: "rest = ws @ after"
    by (simp add: after_dw ws_def)
  have hm: "heading_match b =
      (if 1 \<le> k \<and> k \<le> 4 \<and> ws \<noteq> [] then
           (if after \<noteq> [] then Some (k, after)
            else if 2 \<le> length ws then Some (k, [last ws])
            else None)
         else None)"
    unfolding heading_match_def Let_def k_def leading_markers_def rest_def ws_def after_def ..
  from assms have guard: "1 \<le> k" "k \<le> 4" "ws \<noteq> []"
    unfolding hm by (simp_all split: if_splits)
  from assms have res: "(after \<noteq> [] \<and> d = k \<and> t = after) \<or> (after = [] \<and> 2 \<le> length ws \<and> d = k \<and> t = [last ws])"
    unfolding hm by (simp split: if_splits)
  have tk: "take k b = replicate k HASH"
    unfolding k_def by (rule take_leading_markers)
  have len: "length rest = length b - k" by (simp add: rest_def)
  have wsspace: "\<forall>c\<in>set ws. is_space c"
    unfolding ws_def by (auto dest: set_takeWhileD)
  from res show ?thesis
  proof
    assume a: "after \<noteq> [] \<and> d = k \<and> t = after"
    have "k + length ws < length b"
      using a rest_eq len by (cases after) (auto simp: rest_def)
    moreover have "take (length ws) rest = ws" by (simp add: rest_eq)
    ultimately have "heading_pattern b"
      unfolding heading_pattern_iff using guard tk wsspace
      by (intro exI[of _ k] exI[of _ "length ws"]) (auto simp: rest_def[symmetric] Suc_le_eq)
    moreover have "trim after = trim rest"
      by (simp add: trim_def trimStart_def after_dw)
    ultimately show ?thesis using a by (simp add: k_def rest_def)
  next
    assume a: "after = [] \<and> 2 \<le> length ws \<and> d = k \<and> t = [last ws]"
    then have rw: "rest = ws" using rest_eq by simp
    have "length ws \<le> length b - k" using rw len by simp
    then have "k + (length ws - 1) < length b"
      using a by arith
    moreover have "\<forall>c\<in>set (take (length ws - 1) rest). is_space c"
      using wsspace rw by (auto dest: in_set_takeD)
    ultimately have "heading_pattern b"
      unfolding heading_pattern_iff using guard tk a
      by (intro exI[of _ k] exI[of _ "length ws - 1"]) (auto simp: rest_def[symmetric])
    moreover have "is_space (last ws)" using wsspace guard by simp
    then have "trim [last ws] = []" by (simp add: trim_def trimStart_def trimEnd_def)
    moreover have "trim rest = []"
    proof -
      have dw: "dropWhile is_space rest = []"
        using wsspace rw by (simp add: dropWhile_eq_Nil_conv)
      have "trim rest = trimEnd (dropWhile is_space rest)"
        by (simp add: trim_def trimStart_def)
      also have "\<dots> = []" unfolding dw by (simp add: trimEnd_def)
      finally show ?thesis .
    qed
    ultimately show ?thesis using a by (simp add: k_def rest_def)
  qed
qed


lemma pattern_heading_match:
  assumes "heading_pattern b"
  shows "\<exists>d t. heading_match b = Some (d, t)"
proof -
  from assms obtain k n where kn: "1 \<le> k" "k \<le> 4" "1 \<le> n" "take k b = replicate k HASH"
    "k + n < length b" "\<forall>c\<in>set (take n (drop k b)). is_space c"
    unfolding heading_pattern_iff by blast
  define rest where "rest = drop k b"
  define ws where "ws = takeWhile is_space rest"
  define after where "after = drop (length ws) rest"
  have nlen: "n < length rest" using kn(5) by (simp add: rest_def)
  from nlen obtain c rest' where r: "rest = c # rest'" by (cases rest) auto
  from kn(3) obtain m where n: "n = Suc m" by (cases n) auto
  have "is_space c" using kn(6) unfolding rest_def[symmetric] r n by simp
  moreover have "b ! k = c" using r unfolding rest_def by (rule nth_via_drop)
  ultimately have "is_space (b ! k)" by simp
  then have lm: "leading_markers b = k"
    using kn(4,5) by (intro leading_markers_decomp) auto
  have wn: "n \<le> length ws"
    unfolding ws_def using nlen kn(6) by (intro prefix_le_takeWhile) (auto simp: rest_def)
  have hm: "heading_match b =
      (if 1 \<le> k \<and> k \<le> 4 \<and> ws \<noteq> [] then
           (if after \<noteq> [] then Some (k, after)
            else if 2 \<le> length ws then Some (k, [last ws])
            else None)
         else None)"
    unfolding heading_match_def Let_def lm[unfolded leading_markers_def] rest_def ws_def after_def ..
  have wsne: "ws \<noteq> []" using wn kn(3) by auto
  have "after = [] \<Longrightarrow> 2 \<le> length ws"
  proof -
    assume "after = []"
    then have "length rest \<le> length ws" by (simp add: after_def)
    then show ?thesis using nlen kn(3) by arith
  qed
  then show ?thesis unfolding hm using kn(1,2) wsne by auto
qed


text \<open>
  What the loop appends does not depend on what the output array holds: the blocks of a
  text come in the order of its candidate blocks.
\<close>

lemma convert_loop_acc: "convert_loop fam bs dz = dz @ convert_loop fam bs []"
proof (induction bs arbitrary: dz)
  case Nil
  show ?case by simp
next
  case (Cons b bs)
  have step: "\<And>x. convert_loop fam bs (dz @ [x]) = dz @ convert_loop fam bs [x]"
    by (subst Cons.IH, subst (2) Cons.IH) simp
  show ?case
    by (simp add: Let_def step Cons.IH[of dz] split: option.split)
qed

lemma convert_loop_heading:
  "heading_match b = Some (d, t) \<Longrightarrow>
     convert_loop fam [b] [] = [SectionHeading (fam @ js ''.section-heading'') (trim t) (level_of_depth d)]"
  by simp

lemma convert_loop_no_heading:
  "heading_match b = None \<Longrightarrow> convert_loop fam [b] [] \<noteq> [SectionHeading c t l]"
  by (simp add: Let_def)

text \<open>
  Claim C2, as amended. A candidate block becomes a section heading exactly when it is a
  string of the pattern of the source, \<^verbatim>\<open>^(#{1,4})\s+([\s\S]+)$\<close>: one to four
  markers, white space, then any text, which may run over several lines. The heading
  then has the level of its number of markers, which is one to four, and, as its text,
  what follows the markers, trimmed. The numbers 1, 2, 3 and 4 or more have the levels
  \<^verbatim>\<open>h1\<close>, \<^verbatim>\<open>h2\<close>, \<^verbatim>\<open>h3\<close> and \<^verbatim>\<open>h4\<close>.
\<close>

theorem heading_block_pattern:
  "((\<exists>c t l. convert_loop fam [b] [] = [SectionHeading c t l]) \<longleftrightarrow> heading_pattern b)
   \<and> (heading_pattern b \<longrightarrow>
        1 \<le> leading_markers b \<and> leading_markers b \<le> 4
        \<and> convert_loop fam [b] [] =
            [SectionHeading (fam @ js ''.section-heading'')
               (trim (drop (leading_markers b) b)) (level_of_depth (leading_markers b))])
   \<and> level_of_depth 1 = H1 \<and> level_of_depth 2 = H2 \<and> level_of_depth 3 = H3
   \<and> (4 \<le> d \<longrightarrow> level_of_depth d = H4)"
proof -
  have a: "heading_pattern b" if "convert_loop fam [b] [] = [SectionHeading c t l]" for c t l
  proof (cases "heading_match b")
    case None
    with that show ?thesis using convert_loop_no_heading by blast
  next
    case (Some p)
    then show ?thesis using heading_match_Some_pattern[of b "fst p" "snd p"] by simp
  qed
  have b: "1 \<le> leading_markers b \<and> leading_markers b \<le> 4
        \<and> convert_loop fam [b] [] =
            [SectionHeading (fam @ js ''.section-heading'')
               (trim (drop (leading_markers b) b)) (level_of_depth (leading_markers b))]"
    if hp: "heading_pattern b"
  proof -
    from pattern_heading_match[OF hp] obtain d t where m: "heading_match b = Some (d, t)"
      by blast
    from heading_match_Some_pattern[OF m] have dt: "d = leading_markers b" "trim t = trim (drop d b)"
      by simp_all
    from m have "1 \<le> d \<and> d \<le> 4"
      by (simp add: heading_match_def Let_def split: if_splits)
    then show ?thesis
      using convert_loop_heading[OF m, of fam] dt by simp
  qed
  have c: "level_of_depth 1 = H1 \<and> level_of_depth 2 = H2 \<and> level_of_depth 3 = H3
     \<and> (4 \<le> d \<longrightarrow> level_of_depth d = H4)"
    by (simp add: level_of_depth_def)
  from a b c show ?thesis by blast
qed

text \<open>The theorem at the block \<^verbatim>\<open>## Intro\<close>, and at five markers.\<close>

theorem heading_block_pattern_witness:
  "heading_pattern (js ''## Intro'')
   \<and> convert_loop (js ''page'') [js ''## Intro''] [] =
       [SectionHeading (js ''page.section-heading'') (js ''Intro'') H2]
   \<and> (4::nat) \<le> 5 \<and> level_of_depth 5 = H4"
proof -
  have hp: "heading_pattern (js ''## Intro'')" by code_simp
  have t: "trim (drop (leading_markers (js ''## Intro'')) (js ''## Intro'')) = js ''Intro''"
    by code_simp
  have l: "level_of_depth (leading_markers (js ''## Intro'')) = H2" by code_simp
  have n: "js ''page'' @ js ''.section-heading'' = js ''page.section-heading''" by code_simp
  have d: "(4::nat) \<le> 5" by simp
  note T = heading_block_pattern[of "js ''page''" "js ''## Intro''" 5]
  from T hp
  have "convert_loop (js ''page'') [js ''## Intro''] [] =
            [SectionHeading (js ''page'' @ js ''.section-heading'')
               (trim (drop (leading_markers (js ''## Intro'')) (js ''## Intro'')))
               (level_of_depth (leading_markers (js ''## Intro'')))]"
    by blast
  moreover from T d have "level_of_depth 5 = H4" by blast
  ultimately show ?thesis unfolding t l n using hp d by blast
qed

text \<open>
  Claim C2 as the specification states it fails: the block \<^verbatim>\<open># A\<close>, line feed,
  \<^verbatim>\<open>B\<close> is no string of \<^verbatim>\<open>^(#{1,4})\s+(.+)$\<close>, and the converter makes it a
  heading whose text has both lines.
\<close>

theorem heading_spec_pattern_counterexample:
  "\<not> spec_heading_pattern (js ''# A\<newline>B'')
   \<and> page_blocks (Some (js ''# A\<newline>B'')) =
       [SectionHeading (js ''page.section-heading'') (js ''A\<newline>B'') H1]"
  by code_simp

text \<open>
  Claim C3. The text of scenario C converts to three blocks, in this order: the heading
  \<^verbatim>\<open>Title\<close> of level \<^verbatim>\<open>h1\<close>, the rich text \<^verbatim>\<open>Some body text.\<close>, and an
  unordered list whose items \<^verbatim>\<open>a\<close> and \<^verbatim>\<open>b\<close> are joined by a line feed, each
  behind the bullet prefix. Both migrations give them, each in its component family.
\<close>

theorem scenario_C_blocks:
  "page_blocks (Some (js ''# Title\<newline>\<newline>Some body text.\<newline>\<newline>- a\<newline>- b'')) =
     [SectionHeading (js ''page.section-heading'') (js ''Title'') H1,
      RichText (js ''page.rich-text'') (js ''Some body text.''),
      ListBlock (js ''page.list'') Unordered (js ''- a\<newline>- b'')]
   \<and> article_blocks (Some (js ''# Title\<newline>\<newline>Some body text.\<newline>\<newline>- a\<newline>- b'')) =
     [SectionHeading (js ''article.section-heading'') (js ''Title'') H1,
      RichText (js ''article.rich-text'') (js ''Some body text.''),
      ListBlock (js ''article.list'') Unordered (js ''- a\<newline>- b'')]"
  by code_simp

section \<open>Properties of the keys\<close>



lemma adjacent_pair_Cons:
  "adjacent_pair h (a # s) \<longleftrightarrow> (a = h \<and> s \<noteq> [] \<and> hd s = h) \<or> adjacent_pair h s"
  by (cases s) auto



lemma no_pair_tl: "\<not> adjacent_pair h s \<Longrightarrow> \<not> adjacent_pair h (tl s)"
  by (cases s) (auto simp: adjacent_pair_Cons)











section \<open>Properties of the meta description\<close>

lemma length_trimEnd_le: "length (trimEnd s) \<le> length s"
  by (simp add: trimEnd_def length_dropWhile_le[of is_space "rev s", simplified])

text \<open>The maximum holds for every pair of inputs.\<close>

lemma buildMetaDescription_le: "length (buildMetaDescription v f) \<le> maxLength"
proof -
  have "length (trimEnd (take (maxLength - 1) t) @ [ELLIPSIS]) \<le> maxLength" for t
    using length_trimEnd_le[of "take (maxLength - 1) t"] by (simp add: maxLength_def)
  then show ?thesis
    unfolding buildMetaDescription_def Let_def by (simp only: split: if_splits) auto
qed

text \<open>
  Claim C4 fails on the code. For a row whose only text is the title \<^verbatim>\<open>A\<close> the
  explicit value is empty and the fallback is \<^verbatim>\<open>A\<close>: the padding has 116
  characters, it is appended once, and the description has 118 characters, under the
  minimum of 120 that the function sets itself.
\<close>

theorem meta_description_below_minimum:
  "length padding = 116
   \<and> length (buildMetaDescription (Some []) (Some (js ''A''))) = 118
   \<and> length (buildMetaDescription (Some []) (Some (js ''A''))) < minLength"
  by code_simp

section \<open>Properties of the status code\<close>

text \<open>
  \<^verbatim>\<open>toStatusCode\<close> returns one of the two strings or an inherited member.
\<close>

lemma toStatusCode_total:
  "toStatusCode lc v = OwnString (js ''Redirect-301'')
   \<or> toStatusCode lc v = OwnString (js ''Redirecct-302'')
   \<or> (\<exists>m\<in>set object_prototype_members. toStatusCode lc v = PrototypeMember m)"
proof -
  have "map_of STATUS_MAP k = Some t \<Longrightarrow> t = js ''Redirect-301'' \<or> t = js ''Redirecct-302''" for k t
    by (auto simp: STATUS_MAP_def split: if_splits)
  then show ?thesis
    unfolding toStatusCode_def read_property_def
    by (auto split: option.splits property.splits if_splits)
qed

text \<open>
  Claim C10 fails on the code. The cell \<^verbatim>\<open>constructor\<close> is none of the spellings
  of \<^verbatim>\<open>STATUS_MAP\<close>, and \<^verbatim>\<open>toStatusCode\<close> returns for it the member that the
  object literal inherits under that name, which is neither of the two strings.
\<close>

theorem status_code_inherited_member:
  "map_of STATUS_MAP (js ''constructor'') = None
   \<and> toStatusCode ascii_lower (Some (js ''constructor'')) = PrototypeMember (js ''constructor'')
   \<and> toStatusCode ascii_lower (Some (js ''constructor'')) \<noteq> OwnString (js ''Redirect-301'')"
  by code_simp

section \<open>Properties of the tabular parsers\<close>

lemma inQuotes_pushCell: "inQuotes (pushCell st) = inQuotes st"
  by (simp add: pushCell_def)

lemma inQuotes_pushRow: "inQuotes (pushRow st) = inQuotes st"
  by (simp add: pushRow_def Let_def inQuotes_pushCell)

lemma csv_scan_inQuotes:
  "inQuotes (csv_scan st s) \<longleftrightarrow> (inQuotes st \<noteq> odd (quote_count s))"
proof (induction st s rule: csv_scan.induct)
  case (1 st)
  show ?case by (simp add: quote_count_def)
next
  case (2 st c cs)
  show ?case
  proof (cases "c = DQUOTE")
    case q: True
    show ?thesis
    proof (cases "inQuotes st \<and> cs \<noteq> [] \<and> hd cs = DQUOTE")
      case True
      then obtain cs' where cs: "cs = DQUOTE # cs'" by (cases cs) auto
      from 2(1)[OF q True] q True cs show ?thesis
        by (simp add: quote_count_def)
    next
      case False
      from 2(2)[OF q False] q False show ?thesis
        by (auto simp: quote_count_def)
    qed
  next
    case nq: False
    show ?thesis
    proof (cases "\<not> inQuotes st \<and> c = COMMA")
      case True
      from 2(3)[OF nq True] nq True show ?thesis
        by (simp add: quote_count_def inQuotes_pushCell)
    next
      case nc: False
      show ?thesis
      proof (cases "\<not> inQuotes st \<and> (c = LF \<or> c = CR)")
        case True
        have t: "quote_count (if c = CR \<and> cs \<noteq> [] \<and> hd cs = LF then tl cs else cs) = quote_count cs"
          by (cases cs) (auto simp: quote_count_def)
        from 2(4)[OF nq nc True refl refl] nq nc True t show ?thesis
          by (simp add: quote_count_def Let_def inQuotes_pushRow)
      next
        case False
        from 2(5)[OF nq nc False] nq nc False show ?thesis
          by (auto simp: quote_count_def)
      qed
    qed
  qed
qed


lemma quote_count_strip_bom: "quote_count (strip_bom txt) = quote_count txt"
  by (cases "txt") (auto simp: strip_bom_def quote_count_def)

lemma length_map_records:
  "length (map_records headers dataRows dataLines i) =
     length (filter (\<lambda>cells. \<exists>v\<in>set cells. trim v \<noteq> []) dataRows)"
  by (induction dataRows arbitrary: i) (auto simp: list_ex_iff)

text \<open>
  \<^verbatim>\<open>parseCsv\<close> of the article and page importers throws exactly on the texts with an
  odd number of quote characters: a quote opens or closes a quoted field, or is one of
  the two of an escaped quote, so these are the texts that end inside a quoted field.
\<close>

lemma parseCsv_unmatched_quote:
  "parseCsv txt = Inl UnmatchedQuote \<longleftrightarrow> odd (quote_count txt)"
  using csv_scan_inQuotes[of csv_init "strip_bom txt"]
  by (auto simp: parseCsv_def Let_def csv_init_def quote_count_strip_bom)

text \<open>
  On every other text it returns one row for each data record that has a cell which is
  not blank.
\<close>

lemma parseCsv_rows:
  assumes "even (quote_count txt)"
  shows "\<exists>rows. parseCsv txt = Inr rows
           \<and> length rows =
               length (filter (\<lambda>cells. \<exists>v\<in>set cells. trim v \<noteq> []) (tl (csv_records txt)))"
proof -
  have nq: "\<not> inQuotes (csv_scan csv_init (strip_bom txt))"
    using csv_scan_inQuotes[of csv_init "strip_bom txt"] assms
    by (simp add: csv_init_def quote_count_strip_bom)
  show ?thesis
  proof (cases "length (csv_records txt) < 2")
    case True
    then have "tl (csv_records txt) = []"
      by (cases "csv_records txt") (auto simp: less_Suc_eq)
    moreover have "parseCsv txt = Inr []"
      using nq True by (simp add: parseCsv_def csv_records_def Let_def)
    ultimately show ?thesis by simp
  next
    case False
    then show ?thesis
      using nq by (simp add: parseCsv_def csv_records_def Let_def length_map_records)
  qed
qed

text \<open>
  On the two texts of the theorem below, the parser of the article and page importers
  throws for the first and drops the row of the second.
\<close>

lemma parseCsv_on_the_same_texts:
  "parseCsv (js ''fromPath,toUrl\<newline>\"/old,/new'') = Inl UnmatchedQuote
   \<and> parseCsv (js ''fromPath,toUrl\<newline>,'') = Inr []"
  by code_simp

text \<open>
  Claim C8 fails on the code of the redirect importer. Its \<^verbatim>\<open>parseCsv\<close> has no
  error for an unmatched quote: on a text that ends inside a quoted field it returns a
  row, where the parser of the two other importers throws; and it returns a row for a
  line of separators only, which the other parser drops.
\<close>

theorem redirect_parseCsv_unmatched_quote:
  "redirect_parseCsv (js ''fromPath,toUrl\<newline>\"/old,/new'') =
     [\<lparr>props = [(js ''fromPath'', js ''/old,/new''), (js ''toUrl'', [])], line_no = 2\<rparr>]
   \<and> redirect_parseCsv (js ''fromPath,toUrl\<newline>,'') =
     [\<lparr>props = [(js ''fromPath'', []), (js ''toUrl'', [])], line_no = 2\<rparr>]"
  by code_simp

section \<open>Properties of the batch runners\<close>

subsection \<open>The try of an article row, case by case\<close>









subsection \<open>What follows the lookup\<close>



lemma strapiRequest_sent: "snd (snd (strapiRequest srv rq w)) = snd w @ [rq]"
  by (simp add: strapiRequest_def split: prod.split response.split)


















lemma payload_key_tag: "payload_key (tag_payload opts name slug) = slug"
  by (simp add: payload_key_def tag_payload_def)











subsection \<open>Properties of the try of an article row\<close>










subsection \<open>A turn of the article loop, and the loop\<close>





















subsection \<open>The try of a page row, case by case\<close>











subsection \<open>A turn of the page loop, and the loop\<close>








subsection \<open>The redirect importer\<close>





subsection \<open>The migration of pages\<close>






section \<open>The blocks of a text, and of a migration\<close>

lemma convert_loop_concat:
  "convert_loop fam bs [] = concat (map (\<lambda>b. convert_loop fam [b] []) bs)"
proof (induction bs)
  case Nil
  show ?case by simp
next
  case (Cons b bs)
  have "convert_loop fam (b # bs) [] = convert_loop fam bs (convert_loop fam [b] [])"
    by (simp add: Let_def split: option.split)
  also have "\<dots> = convert_loop fam [b] [] @ convert_loop fam bs []"
    by (rule convert_loop_acc)
  finally show ?case using Cons.IH by simp
qed

lemma page_blocks_str: "page_blocks (Some (str_or_empty v)) = page_blocks v"
  by (simp add: page_blocks_def convertContentToBlocks_def splitTextBlocks_def str_or_empty_def
        split: option.split)

lemma migrate_entry_world:
  "m_world (migrate_entry opts srv e m) = m_world m
   \<or> (\<exists>ident. m_world (migrate_entry opts srv e m)
         = snd (strapiRequest srv
                  (Update ''/api/pages'' ident
                     (migration_payload opts (page_blocks (Some (str_or_empty (e_content e))))))
                  (m_world m)))"
proof (cases "getEntryId e")
  case None
  then show ?thesis by (simp add: migrate_entry_def Let_def)
next
  case (Some ident)
  let ?rq = "Update ''/api/pages'' ident
               (migration_payload opts (page_blocks (Some (str_or_empty (e_content e)))))"
  obtain x w' where p: "strapiRequest srv ?rq (m_world m) = (x, w')"
    by (cases "strapiRequest srv ?rq (m_world m)")
  have "m_world (migrate_entry opts srv e m) = m_world m
        \<or> m_world (migrate_entry opts srv e m) = snd (strapiRequest srv ?rq (m_world m))"
    using Some p by (cases x) (simp_all add: migrate_entry_def Let_def)
  then show ?thesis by blast
qed

lemma migrate_entry_sent:
  assumes "snd (m_world (migrate_entry opts srv e m)) = snd (m_world m) @ [rq]"
  shows "\<exists>ident data. rq = Update ''/api/pages'' ident data
           \<and> map_of data ''contentBlocks'' = Some (PBlocks (page_blocks (e_content e)))"
proof -
  let ?data = "migration_payload opts (page_blocks (Some (str_or_empty (e_content e))))"
  have d: "map_of ?data ''contentBlocks'' = Some (PBlocks (page_blocks (e_content e)))"
    by (simp add: page_blocks_str migration_payload_def)
  from migrate_entry_world[of opts srv e m] show ?thesis
  proof
    assume "m_world (migrate_entry opts srv e m) = m_world m"
    with assms show ?thesis by simp
  next
    assume "\<exists>ident. m_world (migrate_entry opts srv e m)
            = snd (strapiRequest srv (Update ''/api/pages'' ident ?data) (m_world m))"
    then obtain ident where "m_world (migrate_entry opts srv e m)
            = snd (strapiRequest srv (Update ''/api/pages'' ident ?data) (m_world m))"
      by blast
    with assms have "rq = Update ''/api/pages'' ident ?data"
      by (simp add: strapiRequest_sent)
    with d show ?thesis by blast
  qed
qed

text \<open>
  Claim C1. Converting the same text twice gives the same sequence of blocks. The
  sequence is, in the order of the candidate blocks of the text, what each of them
  becomes by itself; and in a migration, whatever the options, the store and the
  counters, the blocks sent for a page are the blocks of its text.
\<close>

theorem blocks_function_of_text:
  "(t1 = t2 \<longrightarrow> convertContentToBlocks fam t1 = convertContentToBlocks fam t2)
   \<and> convertContentToBlocks fam t =
       concat (map (\<lambda>b. convert_loop fam [b] []) (splitTextBlocks t))
   \<and> (snd (m_world (migrate_entry opts srv e m)) = snd (m_world m) @ [rq] \<longrightarrow>
        (\<exists>ident data. rq = Update ''/api/pages'' ident data
           \<and> map_of data ''contentBlocks'' = Some (PBlocks (page_blocks (e_content e)))))"
proof -
  have "convertContentToBlocks fam t =
       concat (map (\<lambda>b. convert_loop fam [b] []) (splitTextBlocks t))"
    unfolding convertContentToBlocks_def by (rule convert_loop_concat)
  then show ?thesis
    using migrate_entry_sent[of opts srv e m rq] by blast
qed

text \<open>
  The theorem at the text \<^verbatim>\<open># About\<close>, and at the live migration of a page with
  this text against a store that accepts the update.
\<close>

theorem blocks_function_of_text_witness:
  "Some (js ''# About'') = Some (js ''# About'')
   \<and> snd (m_world (migrate_entry example_options empty_store example_page
                     (migration_init ((), []))))
       = snd (m_world (migration_init ((), [])))
         @ [Update ''/api/pages'' (IdString (js ''doc1''))
              [(''contentBlocks'',
                PBlocks [SectionHeading (js ''page.section-heading'') (js ''About'') H1])]]
   \<and> convertContentToBlocks (js ''page'') (Some (js ''# About''))
       = convertContentToBlocks (js ''page'') (Some (js ''# About''))
   \<and> (\<exists>ident data.
         Update ''/api/pages'' (IdString (js ''doc1''))
           [(''contentBlocks'',
             PBlocks [SectionHeading (js ''page.section-heading'') (js ''About'') H1])]
           = Update ''/api/pages'' ident data
         \<and> map_of data ''contentBlocks'' = Some (PBlocks (page_blocks (e_content example_page))))"
proof -
  have h: "snd (m_world (migrate_entry example_options empty_store example_page
                     (migration_init ((), []))))
       = snd (m_world (migration_init ((), [])))
         @ [Update ''/api/pages'' (IdString (js ''doc1''))
              [(''contentBlocks'',
                PBlocks [SectionHeading (js ''page.section-heading'') (js ''About'') H1])]]"
    by code_simp
  from blocks_function_of_text[of "Some (js ''# About'')" "Some (js ''# About'')" "js ''page''" _
      example_options empty_store example_page "migration_init ((), [])"
      "Update ''/api/pages'' (IdString (js ''doc1''))
              [(''contentBlocks'',
                PBlocks [SectionHeading (js ''page.section-heading'') (js ''About'') H1])]"] h
  show ?thesis by blast
qed



section \<open>The claims on the batch runners\<close>


lemma importPages_Summary:
  "rows \<noteq> [] \<Longrightarrow>
     importPages opts rt srv rows w = Summary (page_loop opts rt srv rows (batch_init w))"
  by (simp add: importPages_def)







lemma m_tally_init: "m_tally (migration_init w1) = m_tally (migration_init w2)"
  by (simp add: m_tally_def migration_init_def)







end
